theory Spec2Isabelle
  imports Main "HOL-Library.Sublist" "HOL-Library.AList"
begin

section \<open>Strings of the host language\<close>

text \<open>
  The program is TypeScript; its strings are sequences of UTF-16 code units. The model
  uses \<^typ>\<open>string\<close>, whose characters are the code units 0 to 255 (Latin-1), and gives
  the string methods the program calls the meaning ECMAScript gives them on that range:
  \<^verbatim>\<open>trim\<close> strips the white space and line terminators TAB, LF, VT, FF, CR, SP and NBSP,
  \<^verbatim>\<open>toLowerCase\<close> maps A to Z and the capital letters U+00C0 to U+00DE (U+00D7, the
  multiplication sign, apart) to the letter 32 places further, and leaves the rest.
\<close>

definition is_space :: "char \<Rightarrow> bool" where
  "is_space c = (of_char c \<in> set [9, 10, 11, 12, 13, 32, 160 :: nat])"

definition trim :: "string \<Rightarrow> string" where
  "trim s = rev (dropWhile is_space (rev (dropWhile is_space s)))"

definition lower_char :: "char \<Rightarrow> char" where
  "lower_char c =
     (let n = (of_char c :: nat)
      in if (65 \<le> n \<and> n \<le> 90) \<or> (192 \<le> n \<and> n \<le> 222 \<and> n \<noteq> 215)
         then char_of (n + 32) else c)"

definition toLowerCase :: "string \<Rightarrow> string" where
  "toLowerCase s = map lower_char s"

definition startsWith :: "string \<Rightarrow> string \<Rightarrow> bool" where
  "startsWith s n = (take (length n) s = n)"

fun includes_str :: "string \<Rightarrow> string \<Rightarrow> bool" where
  "includes_str [] n = (n = [])"
| "includes_str (c # cs) n = (startsWith (c # cs) n \<or> includes_str cs n)"

definition slice :: "nat \<Rightarrow> nat \<Rightarrow> 'a list \<Rightarrow> 'a list" where
  "slice b e xs = take (e - b) (drop b xs)"

section \<open>Records and the listing view\<close>

text \<open>
  \<^verbatim>\<open>SchoolBase\<close> is the form's data, \<^verbatim>\<open>School\<close> adds the id and the creation
  time. The fields \<^verbatim>\<open>id\<close> and \<^verbatim>\<open>image\<close> carry a suffix, their names being constants
  of HOL. \<^verbatim>\<open>image: string | null\<close> is an option.
\<close>

record schoolBase =
  name :: string
  address :: string
  city :: string
  state :: string
  contact :: string
  email_id :: string
  image_fld :: "string option"

record school = schoolBase +
  id_fld :: nat
  createdAt :: string

text \<open>
  The filters, the draft filters and the unique values are objects with the three keys
  \<^verbatim>\<open>'name' | 'city' | 'state'\<close>, read both as \<^verbatim>\<open>filters.name\<close> and as
  \<^verbatim>\<open>tempFilters[field]\<close>: a function from the key.
\<close>

datatype key = KName | KCity | KState

type_synonym filterState = "key \<Rightarrow> string"

fun fld :: "key \<Rightarrow> ('a school_scheme) \<Rightarrow> string" where
  "fld KName s = name s"
| "fld KCity s = city s"
| "fld KState s = state s"

definition noFilters :: filterState where
  "noFilters = (\<lambda>_. [])"

text \<open>
  \<^verbatim>\<open>filteredSchools\<close> (lines 290 to 305): three guarded passes of \<^verbatim>\<open>Array.filter\<close>, each
  guard the truthiness of the trimmed filter text, each pass comparing the lower-cased
  field against the lower-cased, untrimmed filter text.
\<close>

definition filteredSchools :: "school list \<Rightarrow> filterState \<Rightarrow> school list" where
  "filteredSchools schools filters =
     (let filtered = schools;
          filtered = (if trim (filters KName) \<noteq> [] then
                        (let n = toLowerCase (filters KName)
                         in filter (\<lambda>s. includes_str (toLowerCase (name s)) n) filtered)
                      else filtered);
          filtered = (if trim (filters KCity) \<noteq> [] then
                        (let c = toLowerCase (filters KCity)
                         in filter (\<lambda>s. includes_str (toLowerCase (city s)) c) filtered)
                      else filtered);
          filtered = (if trim (filters KState) \<noteq> [] then
                        (let st = toLowerCase (filters KState)
                         in filter (\<lambda>s. includes_str (toLowerCase (state s)) st) filtered)
                      else filtered)
      in filtered)"

text \<open>
  \<^verbatim>\<open>new Set(xs)\<close> adds the elements in order; a set keeps insertion order and adding an
  element it holds changes nothing. \<^verbatim>\<open>Array.from\<close> lists it in that order.
\<close>

definition set_add :: "'a list \<Rightarrow> 'a \<Rightarrow> 'a list" where
  "set_add acc x = (if x \<in> set acc then acc else acc @ [x])"

definition new_Set :: "'a list \<Rightarrow> 'a list" where
  "new_Set xs = foldl set_add [] xs"

definition uniqueValues :: "school list \<Rightarrow> key \<Rightarrow> string list" where
  "uniqueValues schools k = new_Set (map (fld k) schools)"

definition getSuggestions :: "school list \<Rightarrow> filterState \<Rightarrow> key \<Rightarrow> string list" where
  "getSuggestions schools tempFilters field =
     (let value = toLowerCase (tempFilters field)
      in if value = [] then []
         else slice 0 5 (filter (\<lambda>item. startsWith (toLowerCase item) value)
                                (uniqueValues schools field)))"

text \<open>What the specification's words say, for comparison with the code.\<close>

definition ci_substring :: "string \<Rightarrow> string \<Rightarrow> bool" where
  \<comment> \<open>the text \<open>t\<close> occurs in \<open>s\<close>, letter case ignored\<close>
  "ci_substring t s = sublist (toLowerCase t) (toLowerCase s)"

definition ci_prefix :: "string \<Rightarrow> string \<Rightarrow> bool" where
  "ci_prefix t s = prefix (toLowerCase t) (toLowerCase s)"

definition spec_matches :: "filterState \<Rightarrow> school \<Rightarrow> bool" where
  \<comment> \<open>every non-empty filter field is a case-insensitive substring of the record's field\<close>
  "spec_matches f s =
     ((f KName = [] \<or> ci_substring (f KName) (name s)) \<and>
      (f KCity = [] \<or> ci_substring (f KCity) (city s)) \<and>
      (f KState = [] \<or> ci_substring (f KState) (state s)))"

definition blank :: "string \<Rightarrow> bool" where
  "blank t = list_all is_space t"

definition code_matches :: "filterState \<Rightarrow> school \<Rightarrow> bool" where
  \<comment> \<open>the same with "not only white space" for "non-empty"\<close>
  "code_matches f s =
     ((blank (f KName) \<or> ci_substring (f KName) (name s)) \<and>
      (blank (f KCity) \<or> ci_substring (f KCity) (city s)) \<and>
      (blank (f KState) \<or> ci_substring (f KState) (state s)))"

definition first_index :: "'a list \<Rightarrow> 'a \<Rightarrow> nat" where
  \<comment> \<open>the position at which a value is first seen\<close>
  "first_index xs x = length (takeWhile (\<lambda>y. y \<noteq> x) xs)"

section \<open>Regular expressions\<close>

text \<open>
  The two validation patterns are regular expression literals. They are kept as data and
  run by a matcher (by derivatives); both are anchored with \<^verbatim>\<open>^\<close> and \<^verbatim>\<open>$\<close> and have
  no flags, so \<^verbatim>\<open>test\<close> holds exactly when the whole string matches.
\<close>

datatype rx = Never | Empty | Class "char \<Rightarrow> bool" | Seq rx rx | Alt rx rx | Star rx

fun nullable :: "rx \<Rightarrow> bool" where
  "nullable Never = False"
| "nullable Empty = True"
| "nullable (Class P) = False"
| "nullable (Seq r s) = (nullable r \<and> nullable s)"
| "nullable (Alt r s) = (nullable r \<or> nullable s)"
| "nullable (Star r) = True"

fun deriv :: "char \<Rightarrow> rx \<Rightarrow> rx" where
  "deriv c Never = Never"
| "deriv c Empty = Never"
| "deriv c (Class P) = (if P c then Empty else Never)"
| "deriv c (Seq r s) =
     (if nullable r then Alt (Seq (deriv c r) s) (deriv c s) else Seq (deriv c r) s)"
| "deriv c (Alt r s) = Alt (deriv c r) (deriv c s)"
| "deriv c (Star r) = Seq (deriv c r) (Star r)"

fun rx_test :: "rx \<Rightarrow> string \<Rightarrow> bool" where
  "rx_test r [] = nullable r"
| "rx_test r (c # cs) = rx_test (deriv c r) cs"

fun Rep :: "nat \<Rightarrow> rx \<Rightarrow> rx" where
  "Rep 0 r = Empty"
| "Rep (Suc n) r = Seq r (Rep n r)"

definition Plus :: "rx \<Rightarrow> rx" where
  "Plus r = Seq r (Star r)"

definition Lit :: "char \<Rightarrow> rx" where
  "Lit c = Class (\<lambda>x. x = c)"

definition digit :: "char \<Rightarrow> bool" where
  \<comment> \<open>\<^verbatim>\<open>\d\<close>\<close>
  "digit c = (48 \<le> (of_char c :: nat) \<and> (of_char c :: nat) \<le> 57)"

definition not_space_at :: "char \<Rightarrow> bool" where
  \<comment> \<open>\<^verbatim>\<open>[^\s@]\<close>; \<^verbatim>\<open>\s\<close> is the white space that \<^verbatim>\<open>trim\<close> strips\<close>
  "not_space_at c = (\<not> is_space c \<and> c \<noteq> CHR ''@'')"

definition contact_rx :: rx where
  \<comment> \<open>\<^verbatim>\<open>/^\d{10}$/\<close>\<close>
  "contact_rx = Rep 10 (Class digit)"

definition email_rx :: rx where
  \<comment> \<open>\<^verbatim>\<open>/^[^\s@]+@[^\s@]+\.[^\s@]+$/\<close>\<close>
  "email_rx =
     Seq (Plus (Class not_space_at))
      (Seq (Lit CHR ''@'')
        (Seq (Plus (Class not_space_at))
          (Seq (Lit CHR ''.'') (Plus (Class not_space_at)))))"

text \<open>The language of an expression, to state what the matcher decides.\<close>

inductive_set star :: "string set \<Rightarrow> string set" for A :: "string set" where
  star_Nil: "[] \<in> star A"
| star_app: "u \<in> A \<Longrightarrow> v \<in> star A \<Longrightarrow> u @ v \<in> star A"

fun lang :: "rx \<Rightarrow> string set" where
  "lang Never = {}"
| "lang Empty = {[]}"
| "lang (Class P) = {w. \<exists>c. w = [c] \<and> P c}"
| "lang (Seq r s) = {w. \<exists>u v. w = u @ v \<and> u \<in> lang r \<and> v \<in> lang s}"
| "lang (Alt r s) = lang r \<union> lang s"
| "lang (Star r) = star (lang r)"

section \<open>The add-school form\<close>

datatype errKey = EName | EAddress | ECity | EState | EContact | EEmail_id | EImage | ESubmit

text \<open>
  \<^verbatim>\<open>FormErrors\<close> is an object with optional keys: an association list, in insertion
  order as the object's own keys are. \<^verbatim>\<open>errors[k]\<close> is \<^term>\<open>map_of\<close>, a spread with one key
  replaced is \<^term>\<open>AList.update\<close>.
\<close>

type_synonym formErrors = "(errKey \<times> string) list"

record formState =
  formData :: schoolBase
  errors :: formErrors
  loading :: bool
  imagePreview :: "string option"

definition newErrors :: "schoolBase \<Rightarrow> formErrors" where
  \<comment> \<open>the object \<^verbatim>\<open>validateForm\<close> builds, lines 55 to 70\<close>
  "newErrors fd =
     (let e = [];
          e = (if trim (name fd) = [] then AList.update EName ''School name is required'' e else e);
          e = (if trim (address fd) = [] then AList.update EAddress ''Address is required'' e else e);
          e = (if trim (city fd) = [] then AList.update ECity ''City is required'' e else e);
          e = (if trim (state fd) = [] then AList.update EState ''State is required'' e else e);
          e = (if trim (contact fd) = [] then
                 AList.update EContact ''Contact number is required'' e
               else if \<not> rx_test contact_rx (contact fd) then
                 AList.update EContact ''Contact must be 10 digits'' e
               else e);
          e = (if trim (email_id fd) = [] then
                 AList.update EEmail_id ''Email is required'' e
               else if \<not> rx_test email_rx (email_id fd) then
                 AList.update EEmail_id ''Invalid email format'' e
               else e);
          e = (if image_fld fd = None \<or> image_fld fd = Some [] then
                 AList.update EImage ''School image is required'' e
               else e)
      in e)"

definition validateForm :: "formState \<Rightarrow> formState \<times> bool" where
  \<comment> \<open>\<^verbatim>\<open>setErrors(newErrors); return Object.keys(newErrors).length === 0\<close>\<close>
  "validateForm st =
     (let e = newErrors (formData st) in (st\<lparr>errors := e\<rparr>, length (map fst e) = 0))"

text \<open>
  A file of the input element: its size in bytes and what reading it as a data URL
  gives (\<^verbatim>\<open>reader.result\<close> is \<^verbatim>\<open>null\<close> when the read fails). The handler's argument is
  \<^verbatim>\<open>e.target.files\<close>, \<^verbatim>\<open>null\<close> or a list. The read is taken to complete at once.
\<close>

record inputFile =
  size_fld :: nat
  readAsDataURL :: "string option"

definition handleImageChange :: "inputFile list option \<Rightarrow> formState \<Rightarrow> formState" where
  "handleImageChange files st =
     (case files of
        None \<Rightarrow> st
      | Some [] \<Rightarrow> st
      | Some (file0 # _) \<Rightarrow>
          if size_fld file0 > 5000000 then
            st\<lparr>errors := AList.update EImage ''Image size must be less than 5MB'' (errors st)\<rparr>
          else
            (let result = readAsDataURL file0
             in st\<lparr>imagePreview := result,
                   formData := (formData st)\<lparr>image_fld := result\<rparr>,
                   errors := AList.update EImage [] (errors st)\<rparr>))"

section \<open>The mock gateway\<close>

text \<open>
  The item \<^verbatim>\<open>'schools'\<close> of the local storage: absent (or the empty text, both read as
  \<^verbatim>\<open>'[]'\<close>), the JSON text of an array of records, or any other text, on which
  \<^verbatim>\<open>JSON.parse\<close> or \<^verbatim>\<open>push\<close> throws. \<^verbatim>\<open>setItem\<close> throws when the browser's quota is
  exceeded; \<open>quota_ok\<close> says which arrays the browser accepts.
\<close>

datatype stored = Absent | Records "school list" | Garbage

datatype storageError = BadStoredValue | QuotaExceeded

definition getStored :: "stored \<Rightarrow> storageError + school list" where
  \<comment> \<open>\<^verbatim>\<open>JSON.parse(localStorage.getItem('schools') || '[]')\<close>, as an array\<close>
  "getStored st = (case st of Absent \<Rightarrow> Inr [] | Records xs \<Rightarrow> Inr xs | Garbage \<Rightarrow> Inl BadStoredValue)"

text \<open>
  \<^verbatim>\<open>new Date().toISOString()\<close>: the clock is a time value, the milliseconds since the
  epoch, and the text is \<^verbatim>\<open>YYYY-MM-DDTHH:mm:ss.sssZ\<close> in the proleptic Gregorian
  calendar (six digits of year and a sign beyond the year 9999).
\<close>

fun pad :: "nat \<Rightarrow> nat \<Rightarrow> string" where
  "pad 0 k = []"
| "pad (Suc n) k = pad n (k div 10) @ [char_of (48 + k mod 10)]"

definition civil :: "nat \<Rightarrow> nat \<times> nat \<times> nat" where
  \<comment> \<open>year, month and day of a day number counted from 1970-01-01\<close>
  "civil days =
     (let z = days + 719468;
          era = z div 146097;
          doe = z mod 146097;
          yoe = (doe - doe div 1460 + doe div 36524 - doe div 146096) div 365;
          doy = doe - (365 * yoe + yoe div 4 - yoe div 100);
          mp = (5 * doy + 2) div 153;
          d = doy - (153 * mp + 2) div 5 + 1;
          m = (if mp < 10 then mp + 3 else mp - 9);
          y = yoe + era * 400 + (if m \<le> 2 then 1 else 0)
      in (y, m, d))"

definition toISOString :: "nat \<Rightarrow> string" where
  "toISOString t =
     (let (y, m, d) = civil (t div 86400000);
          year = (if y \<le> 9999 then pad 4 y else ''+'' @ pad 6 y)
      in year @ ''-'' @ pad 2 m @ ''-'' @ pad 2 d @ ''T'' @
         pad 2 (t div 3600000 mod 24) @ '':'' @ pad 2 (t div 60000 mod 60) @ '':'' @
         pad 2 (t div 1000 mod 60) @ ''.'' @ pad 3 (t mod 1000) @ ''Z'')"

definition addSchool ::
  "(school list \<Rightarrow> bool) \<Rightarrow> nat \<Rightarrow> schoolBase \<Rightarrow> stored \<Rightarrow> storageError + (school \<times> stored)" where
  "addSchool quota_ok now schoolData st =
     (case getStored st of
        Inl e \<Rightarrow> Inl e
      | Inr schools \<Rightarrow>
          (let newSchool =
                 \<lparr>name = name schoolData, address = address schoolData, city = city schoolData,
                  state = state schoolData, contact = contact schoolData,
                  email_id = email_id schoolData, image_fld = image_fld schoolData,
                  id_fld = length schools + 1, createdAt = toISOString now\<rparr>;
               schools = schools @ [newSchool]
           in if quota_ok schools then Inr (newSchool, Records schools)
              else Inl QuotaExceeded))"

definition getSchools :: "stored \<Rightarrow> storageError + school list" where
  "getSchools st = getStored st"

text \<open>
  \<^verbatim>\<open>handleSubmit\<close>: the new form state, the new storage, and whether \<^verbatim>\<open>onSuccess\<close> was
  called. The submission is taken as one step (the form is not edited while it waits).
\<close>

definition handleSubmit ::
  "(school list \<Rightarrow> bool) \<Rightarrow> nat \<Rightarrow> formState \<Rightarrow> stored \<Rightarrow> formState \<times> stored \<times> bool" where
  "handleSubmit quota_ok now st store =
     (let (st1, ok) = validateForm st
      in if \<not> ok then (st1, store, False)
         else
           (let st2 = st1\<lparr>loading := True\<rparr>
            in case addSchool quota_ok now (formData st) store of
                 Inr (newSchool, store') \<Rightarrow> (st2\<lparr>loading := False\<rparr>, store', True)
               | Inl e \<Rightarrow>
                   (st2\<lparr>errors := [(ESubmit, ''Failed to add school. Please try again.'')],
                        loading := False\<rparr>, store, False)))"

text \<open>The shapes of an email value: as the specification words it, and as the pattern has it.\<close>

definition local_part :: "string \<Rightarrow> string" where
  "local_part s = takeWhile (\<lambda>c. c \<noteq> CHR ''@'') s"

definition domain_part :: "string \<Rightarrow> string" where
  "domain_part s = drop 1 (dropWhile (\<lambda>c. c \<noteq> CHR ''@'') s)"

definition spec_email_shape :: "string \<Rightarrow> bool" where
  \<comment> \<open>a single "@" with non-empty parts on both sides and a "." after the "@"\<close>
  "spec_email_shape s =
     (count_list s CHR ''@'' = 1 \<and> local_part s \<noteq> [] \<and> domain_part s \<noteq> [] \<and>
      CHR ''.'' \<in> set (domain_part s))"

definition email_shape :: "string \<Rightarrow> bool" where
  \<comment> \<open>no white space, a single "@", a non-empty part before it, and after it a part with a
      "." that is neither its first nor its last character\<close>
  "email_shape s =
     (\<not> list_ex is_space s \<and> count_list s CHR ''@'' = 1 \<and> local_part s \<noteq> [] \<and>
      CHR ''.'' \<in> set (butlast (tl (domain_part s))))"

definition ten_digits :: "string \<Rightarrow> bool" where
  "ten_digits s = (length s = 10 \<and> list_all digit s)"

section \<open>Example data\<close>

text \<open>The two records of the specification's scenario, and values used to run the model.\<close>

definition oak_hill :: school where
  "oak_hill = \<lparr>name = ''Oak Hill'', address = ''1 Hill Rd'', city = ''Austin'', state = ''TX'',
     contact = ''5125550100'', email_id = ''office@oakhill.example'', image_fld = None,
     id_fld = 1, createdAt = ''2024-01-01T00:00:00.000Z''\<rparr>"

definition oakridge :: school where
  "oakridge = \<lparr>name = ''Oakridge'', address = ''2 Ridge Rd'', city = ''Dallas'', state = ''TX'',
     contact = ''2145550100'', email_id = ''office@oakridge.example'', image_fld = None,
     id_fld = 2, createdAt = ''2024-01-02T00:00:00.000Z''\<rparr>"

text \<open>The form's initial state (the initial values of its state hooks) and a form filled with valid data.\<close>

definition initialForm :: formState where
  "initialForm =
     \<lparr>formData = \<lparr>name = [], address = [], city = [], state = [], contact = [],
                   email_id = [], image_fld = None\<rparr>,
      errors = [], loading = False, imagePreview = None\<rparr>"

definition okData :: schoolBase where
  "okData = \<lparr>name = ''Oak Hill'', address = ''1 Hill Rd'', city = ''Austin'', state = ''TX'',
     contact = ''5125550100'', email_id = ''office@oakhill.example'',
     image_fld = Some ''data:image/png;base64,iVBORw0KGgo=''\<rparr>"

definition okForm :: formState where
  "okForm = initialForm\<lparr>formData := okData\<rparr>"

definition pine_grove :: school where
  "pine_grove = \<lparr>name = ''Pine Grove'', address = ''3 Grove St'', city = ''Houston'', state = ''TX'',
     contact = ''7135550100'', email_id = ''office@pinegrove.example'', image_fld = None,
     id_fld = 3, createdAt = ''2024-01-03T00:00:00.000Z''\<rparr>"

definition bigFile :: inputFile where
  "bigFile = \<lparr>size_fld = 6000000, readAsDataURL = Some ''data:image/png;base64,iVBORw0KGgo=''\<rparr>"

section \<open>Facts about the string methods\<close>

lemma startsWith_prefix: "startsWith s n = prefix n s"
  by (auto simp: startsWith_def prefix_def)
     (metis append_eq_conv_conj)

lemma includes_str_sublist: "includes_str s n = sublist n s"
  by (induction s) (auto simp: startsWith_prefix sublist_Cons_right)

lemma all_dropWhile_iff: "(\<forall>x\<in>set (dropWhile P s). P x) \<longleftrightarrow> (\<forall>x\<in>set s. P x)"
proof
  assume a: "\<forall>x\<in>set (dropWhile P s). P x"
  have "dropWhile P s = []"
  proof (rule ccontr)
    assume ne: "dropWhile P s \<noteq> []"
    then have "\<not> P (hd (dropWhile P s))" by (rule hd_dropWhile)
    moreover have "hd (dropWhile P s) \<in> set (dropWhile P s)" using ne by simp
    ultimately show False using a by blast
  qed
  then show "\<forall>x\<in>set s. P x" by simp
next
  assume "\<forall>x\<in>set s. P x"
  then show "\<forall>x\<in>set (dropWhile P s). P x" by (blast dest: set_dropWhileD)
qed

lemma trim_empty_iff: "trim s = [] \<longleftrightarrow> blank s"
  by (simp add: trim_def blank_def list_all_iff all_dropWhile_iff)

lemma blank_Nil: "blank []"
  by (simp add: blank_def)

text \<open>
  The lower-casing is character by character, so "case-insensitive substring" says that
  some stretch of the field is the filter text up to letter case.
\<close>

lemma ci_substring_iff:
  "ci_substring t s \<longleftrightarrow> (\<exists>pre mid post. s = pre @ mid @ post \<and> toLowerCase mid = toLowerCase t)"
proof
  assume "ci_substring t s"
  then have "\<exists>ps ss. map lower_char s = ps @ (map lower_char t @ ss)"
    unfolding ci_substring_def toLowerCase_def sublist_def .
  then obtain ps ss where "map lower_char s = ps @ (map lower_char t @ ss)" by (elim exE)
  then have "\<exists>us vs. s = us @ vs \<and> ps = map lower_char us \<and>
               map lower_char t @ ss = map lower_char vs"
    by (simp only: map_eq_append_conv)
  then obtain pre rest where 1: "s = pre @ rest"
    and 2: "map lower_char t @ ss = map lower_char rest" by (elim exE conjE)
  from 2 have "\<exists>us vs. rest = us @ vs \<and> map lower_char t = map lower_char us \<and>
                 ss = map lower_char vs"
    by (simp only: append_eq_map_conv)
  then obtain mid post where 3: "rest = mid @ post"
    and 4: "map lower_char t = map lower_char mid" by (elim exE conjE)
  have "s = pre @ mid @ post \<and> toLowerCase mid = toLowerCase t"
    unfolding toLowerCase_def using 1 3 4 by (simp only: simp_thms)
  then show "\<exists>pre mid post. s = pre @ mid @ post \<and> toLowerCase mid = toLowerCase t"
    by (intro exI)
next
  assume "\<exists>pre mid post. s = pre @ mid @ post \<and> toLowerCase mid = toLowerCase t"
  then obtain pre mid post where a: "s = pre @ mid @ post" and b: "toLowerCase mid = toLowerCase t"
    by (elim exE conjE)
  have "toLowerCase s = toLowerCase pre @ toLowerCase mid @ toLowerCase post"
    unfolding a toLowerCase_def by (simp only: map_append)
  then have "toLowerCase s = toLowerCase pre @ toLowerCase t @ toLowerCase post"
    unfolding b .
  then show "ci_substring t s"
    unfolding ci_substring_def sublist_def by (intro exI)
qed

section \<open>Facts about the matcher\<close>

lemma nullable_lang: "nullable r \<longleftrightarrow> [] \<in> lang r"
  by (induction r) (auto intro: star.star_Nil)

lemma star_Cons_split:
  assumes "x \<in> star A" and "x = c # w"
  shows "\<exists>u v. w = u @ v \<and> c # u \<in> A \<and> v \<in> star A"
  using assms
proof (induction arbitrary: w rule: star.induct)
  case star_Nil
  then show ?case by simp
next
  case (star_app u v)
  show ?case
  proof (cases u)
    case Nil
    have "v = c # w" using star_app.prems Nil by (simp only: append_Nil)
    then show ?thesis by (rule star_app.IH)
  next
    case (Cons a u')
    from star_app.prems Cons have eq: "a = c" "w = u' @ v" by simp_all
    from star_app.hyps(1) Cons eq(1) have "c # u' \<in> A" by simp
    with eq(2) star_app.hyps(2) show ?thesis by blast
  qed
qed

lemma star_Cons_iff:
  "c # w \<in> star A \<longleftrightarrow> (\<exists>u v. w = u @ v \<and> c # u \<in> A \<and> v \<in> star A)"
proof
  assume "c # w \<in> star A"
  then show "\<exists>u v. w = u @ v \<and> c # u \<in> A \<and> v \<in> star A"
    using star_Cons_split by blast
next
  assume "\<exists>u v. w = u @ v \<and> c # u \<in> A \<and> v \<in> star A"
  then obtain u v where "w = u @ v" "c # u \<in> A" "v \<in> star A" by blast
  then show "c # w \<in> star A" using star.star_app [of "c # u" A v] by simp
qed

lemma lang_deriv: "w \<in> lang (deriv c r) \<longleftrightarrow> c # w \<in> lang r"
proof (induction r arbitrary: w)
  case (Seq r s)
  show ?case
  proof (cases "nullable r")
    case True
    then have "[] \<in> lang r" by (simp add: nullable_lang)
    then show ?thesis using Seq True
      by (auto simp: Cons_eq_append_conv)
  next
    case False
    then have "[] \<notin> lang r" by (simp add: nullable_lang)
    then show ?thesis using Seq False
      by (auto simp: Cons_eq_append_conv)
  qed
next
  case (Star r)
  then show ?case by (auto simp: star_Cons_iff)
qed auto

lemma rx_test_lang: "rx_test r w \<longleftrightarrow> w \<in> lang r"
  by (induction w arbitrary: r) (simp_all add: nullable_lang lang_deriv)

lemma lang_Class_Seq:
  "w \<in> lang (Seq (Class P) s) \<longleftrightarrow> (\<exists>c v. w = c # v \<and> P c \<and> v \<in> lang s)"
proof
  assume "w \<in> lang (Seq (Class P) s)"
  then show "\<exists>c v. w = c # v \<and> P c \<and> v \<in> lang s" by auto
next
  assume "\<exists>c v. w = c # v \<and> P c \<and> v \<in> lang s"
  then obtain c v where "w = [c] @ v" "P c" "v \<in> lang s" by auto
  then show "w \<in> lang (Seq (Class P) s)" unfolding lang.simps by blast
qed

lemma lang_Rep_Class: "w \<in> lang (Rep n (Class P)) \<longleftrightarrow> length w = n \<and> list_all P w"
proof (induction n arbitrary: w)
  case 0
  show ?case by auto
next
  case (Suc n)
  show ?case unfolding Rep.simps lang_Class_Seq Suc.IH by (cases w) auto
qed

lemma star_Class: "w \<in> star {w. \<exists>c. w = [c] \<and> P c} \<longleftrightarrow> list_all P w"
proof (induction w)
  case Nil
  show ?case by (simp add: star.star_Nil)
next
  case (Cons c w)
  have "c # w \<in> star {w. \<exists>c. w = [c] \<and> P c} \<longleftrightarrow>
        P c \<and> w \<in> star {w. \<exists>c. w = [c] \<and> P c}"
    unfolding star_Cons_iff by simp
  then show ?case using Cons.IH by simp
qed

lemma lang_Plus_Class: "w \<in> lang (Plus (Class P)) \<longleftrightarrow> w \<noteq> [] \<and> list_all P w"
  unfolding Plus_def lang_Class_Seq by (cases w) (simp_all add: star_Class)

lemma rx_test_contact: "rx_test contact_rx s = ten_digits s"
  by (simp add: rx_test_lang contact_rx_def ten_digits_def lang_Rep_Class)

lemma lang_Lit_Seq: "w \<in> lang (Seq (Lit c) s) \<longleftrightarrow> (\<exists>v. w = c # v \<and> v \<in> lang s)"
  by (auto simp: Lit_def)

lemma lang_Plus_Seq:
  "w \<in> lang (Seq (Plus (Class P)) s) \<longleftrightarrow>
     (\<exists>u v. w = u @ v \<and> u \<noteq> [] \<and> list_all P u \<and> v \<in> lang s)"
proof -
  have "w \<in> lang (Seq (Plus (Class P)) s) \<longleftrightarrow>
        (\<exists>u v. w = u @ v \<and> u \<in> lang (Plus (Class P)) \<and> v \<in> lang s)"
    by simp
  then show ?thesis unfolding lang_Plus_Class by (simp only: conj_assoc)
qed

lemma rx_test_email_split:
  "rx_test email_rx s \<longleftrightarrow>
     (\<exists>l d t. s = l @ CHR ''@'' # d @ CHR ''.'' # t \<and>
        l \<noteq> [] \<and> list_all not_space_at l \<and> d \<noteq> [] \<and> list_all not_space_at d \<and>
        t \<noteq> [] \<and> list_all not_space_at t)"
  (is "?L \<longleftrightarrow> ?R")
proof -
  have "?L \<longleftrightarrow>
    (\<exists>l v. s = l @ v \<and> l \<noteq> [] \<and> list_all not_space_at l \<and>
      (\<exists>v'. v = CHR ''@'' # v' \<and>
        (\<exists>d v2. v' = d @ v2 \<and> d \<noteq> [] \<and> list_all not_space_at d \<and>
          (\<exists>t. v2 = CHR ''.'' # t \<and> t \<noteq> [] \<and> list_all not_space_at t))))"
    unfolding rx_test_lang email_rx_def lang_Plus_Seq lang_Lit_Seq lang_Plus_Class ..
  also have "\<dots> \<longleftrightarrow> ?R"
  proof
    assume "?R"
    then obtain l d t where
      "s = l @ (CHR ''@'' # d @ CHR ''.'' # t)" "l \<noteq> []" "list_all not_space_at l"
      "d \<noteq> []" "list_all not_space_at d" "t \<noteq> []" "list_all not_space_at t"
      by auto
    then show "\<exists>l v. s = l @ v \<and> l \<noteq> [] \<and> list_all not_space_at l \<and>
      (\<exists>v'. v = CHR ''@'' # v' \<and>
        (\<exists>d v2. v' = d @ v2 \<and> d \<noteq> [] \<and> list_all not_space_at d \<and>
          (\<exists>t. v2 = CHR ''.'' # t \<and> t \<noteq> [] \<and> list_all not_space_at t)))"
      by blast
  qed auto
  finally show ?thesis .
qed

lemma not_space_at_chars: "\<not> is_space CHR ''@''" "\<not> is_space CHR ''.''"
  by (simp_all add: is_space_def)

lemma list_all_not_space_at:
  "list_all not_space_at w \<longleftrightarrow> (\<forall>c \<in> set w. \<not> is_space c) \<and> CHR ''@'' \<notin> set w"
  by (auto simp: list_all_iff not_space_at_def)

lemma email_shape_of_split:
  assumes s: "s = l @ CHR ''@'' # d @ CHR ''.'' # t"
    and l: "l \<noteq> []" "list_all not_space_at l"
    and d: "d \<noteq> []" "list_all not_space_at d"
    and t: "t \<noteq> []" "list_all not_space_at t"
  shows "email_shape s"
proof -
  have nl: "\<forall>c \<in> set l. c \<noteq> CHR ''@''" and nd: "CHR ''@'' \<notin> set d" and nt: "CHR ''@'' \<notin> set t"
    using l d t by (auto simp: list_all_not_space_at)
  have sp: "\<not> list_ex is_space s"
    using l d t unfolding s by (auto simp: list_ex_iff list_all_not_space_at not_space_at_chars)
  have cnt: "count_list s CHR ''@'' = 1"
    using nl nd nt unfolding s by (auto simp: count_list_0_iff)
  have loc: "local_part s = l"
    unfolding local_part_def s using nl by (simp add: takeWhile_append2)
  have dom: "domain_part s = d @ CHR ''.'' # t"
    unfolding domain_part_def s using nl by (simp add: dropWhile_append2)
  obtain a d' where d': "d = a # d'" using d(1) by (cases d) auto
  have "butlast (tl (d @ CHR ''.'' # t)) = d' @ CHR ''.'' # butlast t"
    using t(1) by (simp add: d' butlast_append)
  then have dot: "CHR ''.'' \<in> set (butlast (tl (domain_part s)))"
    unfolding dom by simp
  show ?thesis
    unfolding email_shape_def using sp cnt loc l(1) dot by simp
qed

lemma split_of_email_shape:
  assumes "email_shape s"
  shows "\<exists>l d t. s = l @ CHR ''@'' # d @ CHR ''.'' # t \<and>
           l \<noteq> [] \<and> list_all not_space_at l \<and> d \<noteq> [] \<and> list_all not_space_at d \<and>
           t \<noteq> [] \<and> list_all not_space_at t"
proof -
  define l where "l = takeWhile (\<lambda>c. c \<noteq> CHR ''@'') s"
  define r where "r = dropWhile (\<lambda>c. c \<noteq> CHR ''@'') s"
  define m where "m = tl (drop 1 r)"
  from assms have sp: "\<forall>c \<in> set s. \<not> is_space c"
    and cnt: "count_list s CHR ''@'' = 1"
    and lne: "l \<noteq> []"
    and dot: "CHR ''.'' \<in> set (butlast m)"
    by (auto simp: email_shape_def list_ex_iff local_part_def domain_part_def l_def r_def m_def)
  have s: "s = l @ r" by (simp add: l_def r_def)
  have nl: "CHR ''@'' \<notin> set l"
    unfolding l_def by (auto dest: set_takeWhileD)
  have "CHR ''@'' \<in> set s"
    using cnt by (metis count_list_0_iff zero_neq_one)
  then have "r \<noteq> []"
    unfolding r_def by (auto simp: dropWhile_eq_Nil_conv)
  then have "hd r = CHR ''@''"
    unfolding r_def using hd_dropWhile [of "\<lambda>c. c \<noteq> CHR ''@''" s] by simp
  with \<open>r \<noteq> []\<close> have r: "r = CHR ''@'' # drop 1 r"
    by (cases r) auto
  define dm where "dm = drop 1 r"
  have s': "s = l @ CHR ''@'' # dm"
    using s r by (simp add: dm_def)
  have "count_list dm CHR ''@'' = 0"
    using cnt nl unfolding s' by (simp add: count_list_0_iff)
  then have nd: "CHR ''@'' \<notin> set dm"
    by (simp add: count_list_0_iff)
  from dot obtain a b where ab: "butlast m = a @ CHR ''.'' # b"
    by (auto dest: split_list)
  then have mne: "m \<noteq> []" by auto
  then have dmne: "dm \<noteq> []" unfolding m_def dm_def by auto
  have m: "m = a @ CHR ''.'' # b @ [last m]"
    using append_butlast_last_id [OF mne] ab by simp
  have dm: "dm = (hd dm # a) @ CHR ''.'' # (b @ [last m])"
    using dmne m unfolding m_def dm_def by (cases "drop 1 r") auto
  have good: "list_all not_space_at l" "list_all not_space_at dm"
    using sp nl nd unfolding s' by (auto simp: list_all_not_space_at)
  have "list_all not_space_at (hd dm # a)" "list_all not_space_at (b @ [last m])"
    using good(2) by (subst (asm) dm, simp)+
  moreover have "s = l @ CHR ''@'' # (hd dm # a) @ CHR ''.'' # (b @ [last m])"
    using s' dm by simp
  ultimately show ?thesis
    using lne good(1) by blast
qed

lemma rx_test_email: "rx_test email_rx s = email_shape s"
  unfolding rx_test_email_split
  using email_shape_of_split split_of_email_shape by blast

lemma blank_not_ten_digits: "blank s \<Longrightarrow> \<not> ten_digits s"
proof
  assume b: "blank s" and t: "ten_digits s"
  then obtain c where "c \<in> set s" by (cases s) (auto simp: ten_digits_def)
  with b t have "is_space c" "digit c" by (auto simp: blank_def ten_digits_def list_all_iff)
  then show False by (auto simp: is_space_def digit_def)
qed

lemma blank_not_email_shape: "blank s \<Longrightarrow> \<not> email_shape s"
  by (cases s) (auto simp: blank_def email_shape_def list_ex_iff list_all_iff)

section \<open>Facts about the form\<close>

lemma step_other:
  "k \<noteq> k' \<Longrightarrow> map_of (if c then AList.update k' v e else e) k = map_of e k"
  by (simp add: update_conv')

lemma step3_other:
  "k \<noteq> k' \<Longrightarrow>
   map_of (if c then AList.update k' v e else if c' then AList.update k' v' e else e) k =
   map_of e k"
  by (simp add: update_conv')

lemma step3_same:
  "map_of e k = None \<Longrightarrow>
   map_of (if c then AList.update k v e else if c' then AList.update k v' e else e) k =
   (if c then Some v else if c' then Some v' else None)"
  by (simp add: update_conv')

lemma map_of_newErrors_contact:
  "map_of (newErrors fd) EContact =
     (if blank (contact fd) then Some ''Contact number is required''
      else if \<not> ten_digits (contact fd) then Some ''Contact must be 10 digits''
      else None)"
  unfolding newErrors_def Let_def trim_empty_iff rx_test_contact
  by (simp only: step_other step3_other step3_same errKey.distinct simp_thms map_of.simps)

lemma map_of_newErrors_email:
  "map_of (newErrors fd) EEmail_id =
     (if blank (email_id fd) then Some ''Email is required''
      else if \<not> email_shape (email_id fd) then Some ''Invalid email format''
      else None)"
  unfolding newErrors_def Let_def trim_empty_iff rx_test_email
  by (simp only: step_other step3_other step3_same errKey.distinct simp_thms map_of.simps)

lemma errors_validateForm: "errors (fst (validateForm st)) = newErrors (formData st)"
  by (simp add: validateForm_def Let_def)

lemma toISOString_nonempty: "toISOString t \<noteq> []"
  by (simp add: toISOString_def split: prod.split)

text \<open>The clock reading 1700000000000 is 14 November 2023, 22:13:20 UTC.\<close>

lemma pad2: "pad 2 k = [char_of (48 + k div 10 mod 10), char_of (48 + k mod 10)]"
  by (simp add: numeral_2_eq_2)

lemma pad3:
  "pad 3 k = [char_of (48 + k div 10 div 10 mod 10), char_of (48 + k div 10 mod 10),
              char_of (48 + k mod 10)]"
  by (simp add: numeral_3_eq_3)

lemma pad4:
  "pad 4 k = [char_of (48 + k div 10 div 10 div 10 mod 10),
              char_of (48 + k div 10 div 10 mod 10),
              char_of (48 + k div 10 mod 10), char_of (48 + k mod 10)]"
proof -
  have "pad 4 k = pad (Suc 3) k" by simp
  also have "\<dots> = pad 3 (k div 10) @ [char_of (48 + k mod 10)]" by (rule pad.simps(2))
  finally show ?thesis by (simp add: pad3)
qed

lemma digit_chars:
  "char_of (48::nat) = CHR ''0''" "char_of (49::nat) = CHR ''1''" "char_of (50::nat) = CHR ''2''"
  "char_of (51::nat) = CHR ''3''" "char_of (52::nat) = CHR ''4''" "char_of (53::nat) = CHR ''5''"
  "char_of (54::nat) = CHR ''6''" "char_of (55::nat) = CHR ''7''" "char_of (56::nat) = CHR ''8''"
  "char_of (57::nat) = CHR ''9''"
  by (simp_all add: char_of_eq_iff take_bit_eq_mod)

lemma civil_ex: "civil 19675 = (2023, 11, 14)"
proof -
  have a: "(19675::nat) + 719468 = 739143" "(739143::nat) div 146097 = 5"
    "(739143::nat) mod 146097 = 8658" by simp_all
  have b: "((8658::nat) - 8658 div 1460 + 8658 div 36524 - 8658 div 146096) div 365 = 23"
    by simp
  have c: "(8658::nat) - (365 * 23 + 23 div 4 - 23 div 100) = 258" by simp
  have d: "(5 * (258::nat) + 2) div 153 = 8" "(258::nat) - (153 * 8 + 2) div 5 + 1 = 14" by simp_all
  show ?thesis
    unfolding civil_def Let_def a b c d by simp
qed


lemma toISOString_example: "toISOString 1700000000000 = ''2023-11-14T22:13:20.000Z''"
proof -
  have d: "(1700000000000::nat) div 86400000 = 19675" by simp
  have y: "pad 4 2023 = ''2023''" unfolding pad4 by (simp add: digit_chars)
  have t: "pad 2 11 = ''11''" "pad 2 14 = ''14''" "pad 2 22 = ''22''" "pad 2 13 = ''13''"
    "pad 2 20 = ''20''" "pad 3 0 = ''000''"
    unfolding pad2 pad3 by (simp_all add: digit_chars)
  have h: "(1700000000000::nat) div 3600000 mod 24 = 22" "(1700000000000::nat) div 60000 mod 60 = 13"
    "(1700000000000::nat) div 1000 mod 60 = 20" "(1700000000000::nat) mod 1000 = 0"
    by simp_all
  show ?thesis
    unfolding toISOString_def d civil_ex Let_def prod.case h
    by (simp only: y t if_True append.simps le_numeral_extra numeral_le_iff) simp
qed

section \<open>Facts about the filter engine\<close>

lemma filteredSchools_filter: "filteredSchools schools f = filter (code_matches f) schools"
  unfolding filteredSchools_def Let_def code_matches_def ci_substring_def
  by (auto simp: includes_str_sublist trim_empty_iff intro: filter_cong)

lemma code_matches_upd_blank:
  "blank (f k) \<Longrightarrow> code_matches f s = code_matches (f(k := [])) s"
  by (cases k) (auto simp: code_matches_def blank_Nil)

lemma code_matches_upd:
  "code_matches f s = ((blank (f k) \<or> ci_substring (f k) (fld k s)) \<and> code_matches (f(k := [])) s)"
  by (cases k) (auto simp: code_matches_def blank_Nil)

lemma length_filter_mono:
  "(\<And>x. x \<in> set xs \<Longrightarrow> P x \<Longrightarrow> Q x) \<Longrightarrow> length (filter P xs) \<le> length (filter Q xs)"
  by (induction xs) auto

lemma set_foldl_set_add: "set (foldl set_add acc xs) = set acc \<union> set xs"
  by (induction xs arbitrary: acc) (auto simp: set_add_def)

lemma distinct_foldl_set_add: "distinct acc \<Longrightarrow> distinct (foldl set_add acc xs)"
  by (induction xs arbitrary: acc) (auto simp: set_add_def)

lemma set_new_Set: "set (new_Set xs) = set xs"
  by (simp add: new_Set_def set_foldl_set_add)

lemma distinct_new_Set: "distinct (new_Set xs)"
  by (simp add: new_Set_def distinct_foldl_set_add)

lemma new_Set_snoc: "new_Set (xs @ [x]) = set_add (new_Set xs) x"
  by (simp add: new_Set_def)

lemma first_index_append_in: "a \<in> set xs \<Longrightarrow> first_index (xs @ ys) a = first_index xs a"
  by (simp add: first_index_def takeWhile_append1)

lemma first_index_less: "a \<in> set xs \<Longrightarrow> first_index xs a < length xs"
  unfolding first_index_def by (induction xs) auto

lemma first_index_snoc_new: "a \<notin> set xs \<Longrightarrow> first_index (xs @ [a]) a = length xs"
  unfolding first_index_def by (induction xs) auto

lemma new_Set_first_seen:
  "sorted_wrt (\<lambda>a b. first_index xs a < first_index xs b) (new_Set xs)"
proof (induction xs rule: rev_induct)
  case Nil
  show ?case by (simp add: new_Set_def)
next
  case (snoc x xs)
  have old: "sorted_wrt (\<lambda>a b. first_index (xs @ [x]) a < first_index (xs @ [x]) b) (new_Set xs)"
    using snoc by (rule sorted_wrt_mono_rel [rotated]) (simp add: set_new_Set first_index_append_in)
  show ?case
  proof (cases "x \<in> set xs")
    case True
    then show ?thesis using old by (simp add: new_Set_snoc set_add_def set_new_Set)
  next
    case False
    have "first_index (xs @ [x]) a < first_index (xs @ [x]) x" if "a \<in> set xs" for a
      using that False by (simp add: first_index_append_in first_index_snoc_new first_index_less)
    then show ?thesis using old False
      by (simp add: new_Set_snoc set_add_def set_new_Set sorted_wrt_append)
  qed
qed

lemma toLowerCase_Nil_iff: "toLowerCase s = [] \<longleftrightarrow> s = []"
  by (simp add: toLowerCase_def)

section \<open>The filter engine: matching\<close>

text \<open>
  Claim C1, as the code has it. For every sequence of records and every committed filter
  state, \<^const>\<open>filteredSchools\<close> returns exactly the records that satisfy, for each of the
  three filter fields that is not made of white space only, "the record's field contains
  the filter text as a case-insensitive substring"; a filter field that is empty or only
  white space imposes no constraint; the three constraints are conjoined; the result is
  a subsequence of the input, in the input's order.
\<close>

theorem filteredSchools_matching:
  "filteredSchools schools f = filter (code_matches f) schools \<and>
   subseq (filteredSchools schools f) schools"
  by (simp add: filteredSchools_filter)

theorem filteredSchools_matching_witness:
  "filteredSchools [oak_hill, oakridge] (noFilters(KCity := ''austin'')) = [oak_hill] \<and>
   subseq [oak_hill] [oak_hill, oakridge]"
proof -
  have "filter (code_matches (noFilters(KCity := ''austin''))) [oak_hill, oakridge] = [oak_hill]"
    by code_simp
  then show ?thesis
    using filteredSchools_matching [of "[oak_hill, oakridge]" "noFilters(KCity := ''austin'')"]
    by simp
qed

text \<open>
  Claim C1 as it is worded takes "non-empty" for the guard. With the name filter a single
  space, the worded claim keeps only the records whose name has a space; the code keeps
  every record.
\<close>

theorem filteredSchools_nonempty_counterexample:
  "filter (spec_matches (noFilters(KName := '' ''))) [oak_hill, oakridge] = [oak_hill] \<and>
   filteredSchools [oak_hill, oakridge] (noFilters(KName := '' '')) = [oak_hill, oakridge]"
  by code_simp

text \<open>
  Claim C5. Matching is monotonic in the filters: replacing the empty value of any one
  filter field with a non-empty value never increases the number of records in the result.
\<close>

theorem filteredSchools_monotonic:
  assumes "f k = []" and "v \<noteq> []"
  shows "length (filteredSchools schools (f(k := v))) \<le> length (filteredSchools schools f)"
proof -
  have "code_matches f s" if "code_matches (f(k := v)) s" for s
  proof -
    from that have "code_matches ((f(k := v))(k := [])) s"
      using code_matches_upd [of "f(k := v)" s k] by simp
    moreover have "(f(k := v))(k := []) = f" using assms(1) by auto
    ultimately show ?thesis by simp
  qed
  then show ?thesis
    unfolding filteredSchools_filter by (intro length_filter_mono)
qed

theorem filteredSchools_monotonic_witness:
  "noFilters KCity = [] \<and> ''austin'' \<noteq> [] \<and>
   length (filteredSchools [oak_hill, oakridge] (noFilters(KCity := ''austin''))) \<le>
   length (filteredSchools [oak_hill, oakridge] noFilters)"
proof -
  have h1: "noFilters KCity = []" by (simp add: noFilters_def)
  have h2: "''austin'' \<noteq> []" by simp
  show ?thesis
    using h1 filteredSchools_monotonic
      [where f = noFilters and k = KCity and v = "''austin''"
         and schools = "[oak_hill, oakridge]", OF h1 h2]
    by simp
qed

text \<open>
  Claim C6. With all three filter fields empty, matching returns the full input sequence
  unchanged, in its original order.
\<close>

theorem filteredSchools_identity: "filteredSchools schools noFilters = schools"
  by (simp add: filteredSchools_def noFilters_def trim_def)

theorem filteredSchools_identity_witness:
  "filteredSchools [oak_hill, oakridge] noFilters = [oak_hill, oakridge]"
  by (rule filteredSchools_identity)

text \<open>
  Claim C10. A filter field made of white space only imposes no constraint, exactly as if
  it were empty; a filter field with a character that is not white space is compared
  untrimmed (lower-cased, with its surrounding white space) against the record's field.
\<close>

theorem filteredSchools_blank_filter:
  "(blank (f k) \<longrightarrow> filteredSchools schools f = filteredSchools schools (f(k := []))) \<and>
   (\<not> blank (f k) \<longrightarrow>
      filteredSchools schools f =
        filter (\<lambda>s. includes_str (toLowerCase (fld k s)) (toLowerCase (f k)))
               (filteredSchools schools (f(k := []))))"
proof (intro conjI impI)
  assume "blank (f k)"
  then show "filteredSchools schools f = filteredSchools schools (f(k := []))"
    unfolding filteredSchools_filter using code_matches_upd_blank [of f k] by (intro filter_cong) auto
next
  assume nb: "\<not> blank (f k)"
  show "filteredSchools schools f =
        filter (\<lambda>s. includes_str (toLowerCase (fld k s)) (toLowerCase (f k)))
               (filteredSchools schools (f(k := [])))"
    unfolding filteredSchools_filter filter_filter
    using nb code_matches_upd [of f _ k]
    by (intro filter_cong) (auto simp: ci_substring_def includes_str_sublist)
qed

theorem filteredSchools_blank_filter_witness:
  "blank '' '' \<and>
   filteredSchools [oak_hill, oakridge] (noFilters(KName := '' '')) = [oak_hill, oakridge] \<and>
   \<not> blank ''oak '' \<and>
   filteredSchools [oak_hill, oakridge] (noFilters(KName := ''oak '')) = [oak_hill] \<and>
   filteredSchools [oak_hill, oakridge] (noFilters(KName := ''oak'')) = [oak_hill, oakridge]"
proof -
  have b1: "blank '' ''" by code_simp
  have b2: "\<not> blank ''oak ''" by code_simp
  have e: "(noFilters(KName := '' ''))(KName := []) = noFilters"
          "(noFilters(KName := ''oak ''))(KName := []) = noFilters"
    by (auto simp: noFilters_def)
  have all: "filteredSchools [oak_hill, oakridge] noFilters = [oak_hill, oakridge]"
    by (simp add: filteredSchools_def noFilters_def trim_def)
  have f: "filter (\<lambda>s. includes_str (toLowerCase (fld KName s)) (toLowerCase ''oak ''))
             [oak_hill, oakridge] = [oak_hill]"
    by code_simp
  have p1: "filteredSchools [oak_hill, oakridge] (noFilters(KName := '' '')) = [oak_hill, oakridge]"
    using filteredSchools_blank_filter [of "noFilters(KName := '' '')" KName "[oak_hill, oakridge]"]
      b1 e all by simp
  have p2: "filteredSchools [oak_hill, oakridge] (noFilters(KName := ''oak '')) = [oak_hill]"
    using filteredSchools_blank_filter [of "noFilters(KName := ''oak '')" KName "[oak_hill, oakridge]"]
      b2 e all f by simp
  have p3: "filteredSchools [oak_hill, oakridge] (noFilters(KName := ''oak'')) = [oak_hill, oakridge]"
    by code_simp
  show ?thesis using b1 b2 p1 p2 p3 by simp
qed

section \<open>The filter engine: suggestions\<close>

text \<open>
  Claim C2. For every record set, field and draft text, \<^const>\<open>getSuggestions\<close> returns at
  most 5 values, pairwise distinct, each one a value of that field in the record set,
  listed in the order in which the record set first shows them, each having the draft text
  as a case-insensitive prefix; with the empty draft text the list is empty.
\<close>

theorem getSuggestions_props:
  "length (getSuggestions schools tf k) \<le> 5 \<and>
   distinct (getSuggestions schools tf k) \<and>
   set (getSuggestions schools tf k) \<subseteq> set (map (fld k) schools) \<and>
   (\<forall>v \<in> set (getSuggestions schools tf k). ci_prefix (tf k) v) \<and>
   sorted_wrt (\<lambda>a b. first_index (map (fld k) schools) a < first_index (map (fld k) schools) b)
     (getSuggestions schools tf k) \<and>
   (tf k = [] \<longrightarrow> getSuggestions schools tf k = [])"
proof (cases "tf k = []")
  case True
  then show ?thesis by (simp add: getSuggestions_def toLowerCase_def)
next
  case False
  define vals where "vals = map (fld k) schools"
  define hit where "hit = (\<lambda>item. startsWith (toLowerCase item) (toLowerCase (tf k)))"
  have r: "getSuggestions schools tf k = take 5 (filter hit (new_Set vals))"
    using False
    by (simp add: getSuggestions_def toLowerCase_Nil_iff slice_def uniqueValues_def vals_def hit_def)
  have 1: "length (take 5 (filter hit (new_Set vals))) \<le> 5" by simp
  have 2: "distinct (take 5 (filter hit (new_Set vals)))"
    by (intro distinct_take distinct_filter distinct_new_Set)
  have sub: "set (take 5 (filter hit (new_Set vals))) \<subseteq> set (filter hit (new_Set vals))"
    by (rule set_take_subset)
  have 3: "set (take 5 (filter hit (new_Set vals))) \<subseteq> set vals"
    using sub by (auto simp: set_new_Set)
  have 4: "\<forall>v \<in> set (take 5 (filter hit (new_Set vals))). ci_prefix (tf k) v"
    using sub by (auto simp: hit_def ci_prefix_def startsWith_prefix)
  have 5: "sorted_wrt (\<lambda>a b. first_index vals a < first_index vals b)
             (take 5 (filter hit (new_Set vals)))"
    by (intro sorted_wrt_take sorted_wrt_filter new_Set_first_seen)
  show ?thesis
    unfolding r using 1 2 3 4 5 False by (simp add: vals_def)
qed

theorem getSuggestions_props_witness:
  "getSuggestions [oak_hill, oakridge] (noFilters(KName := ''oak'')) KName =
     [''Oak Hill'', ''Oakridge''] \<and>
   ci_prefix ''oak'' ''Oak Hill'' \<and> ci_prefix ''oak'' ''Oakridge'' \<and>
   noFilters KName = [] \<and> getSuggestions [oak_hill, oakridge] noFilters KName = []"
proof -
  have v: "getSuggestions [oak_hill, oakridge] (noFilters(KName := ''oak'')) KName =
           [''Oak Hill'', ''Oakridge'']"
    by code_simp
  have h: "noFilters KName = []" by (simp add: noFilters_def)
  have p: "ci_prefix ''oak'' ''Oak Hill'' \<and> ci_prefix ''oak'' ''Oakridge''"
    using getSuggestions_props [of "[oak_hill, oakridge]" "noFilters(KName := ''oak'')" KName]
    unfolding v by simp
  have q: "getSuggestions [oak_hill, oakridge] noFilters KName = []"
    using getSuggestions_props [of "[oak_hill, oakridge]" noFilters KName] h by simp
  show ?thesis using v h p q by simp
qed

section \<open>The validation engine\<close>

text \<open>
  Claim C4, as the code has it. For every candidate record, validation produces an error
  for the contact field if and only if the contact value is not exactly 10 decimal digits;
  the error is "Contact number is required" (Required) when the value is empty or made of
  white space only, and "Contact must be 10 digits" (InvalidFormat) otherwise.
\<close>

theorem validateForm_contact:
  "map_of (errors (fst (validateForm st))) EContact =
     (if blank (contact (formData st)) then Some ''Contact number is required''
      else if ten_digits (contact (formData st)) then None
      else Some ''Contact must be 10 digits'') \<and>
   (map_of (errors (fst (validateForm st))) EContact \<noteq> None) = (\<not> ten_digits (contact (formData st)))"
  using blank_not_ten_digits [of "contact (formData st)"]
  by (auto simp: errors_validateForm map_of_newErrors_contact)

theorem validateForm_contact_witness:
  "map_of (errors (fst (validateForm okForm))) EContact = None \<and>
   ten_digits (contact (formData okForm)) \<and>
   map_of (errors (fst (validateForm (okForm\<lparr>formData := okData\<lparr>contact := ''512555''\<rparr>\<rparr>)))) EContact =
     Some ''Contact must be 10 digits'' \<and>
   map_of (errors (fst (validateForm (okForm\<lparr>formData := okData\<lparr>contact := []\<rparr>\<rparr>)))) EContact =
     Some ''Contact number is required''"
proof -
  have t: "ten_digits (contact (formData okForm))" by code_simp
  have a: "(if blank (contact (formData okForm)) then Some ''Contact number is required''
            else if ten_digits (contact (formData okForm)) then None
            else Some ''Contact must be 10 digits'') = None"
    by code_simp
  have b: "\<not> blank ''512555''" "\<not> ten_digits ''512555''" by code_simp+
  have c: "blank []" by (rule blank_Nil)
  have 1: "map_of (errors (fst (validateForm okForm))) EContact = None"
    using validateForm_contact [of okForm] a by simp
  have 2: "map_of (errors (fst (validateForm (okForm\<lparr>formData := okData\<lparr>contact := ''512555''\<rparr>\<rparr>))))
             EContact = Some ''Contact must be 10 digits''"
    using validateForm_contact [of "okForm\<lparr>formData := okData\<lparr>contact := ''512555''\<rparr>\<rparr>"] b
    by simp
  have 3: "map_of (errors (fst (validateForm (okForm\<lparr>formData := okData\<lparr>contact := []\<rparr>\<rparr>))))
             EContact = Some ''Contact number is required''"
    using validateForm_contact [of "okForm\<lparr>formData := okData\<lparr>contact := []\<rparr>\<rparr>"] c
    by simp
  show ?thesis using t 1 2 3 by simp
qed

text \<open>
  Claim C4 as it is worded gives InvalidFormat to every value that is not empty. A contact
  value of one space is not empty, and its error is the Required one.
\<close>

theorem contact_blank_counterexample:
  "'' '' \<noteq> [] \<and>
   map_of (errors (fst (validateForm (okForm\<lparr>formData := okData\<lparr>contact := '' ''\<rparr>\<rparr>)))) EContact =
     Some ''Contact number is required''"
proof -
  have b: "blank '' ''" by code_simp
  show ?thesis
    using b by (simp add: errors_validateForm map_of_newErrors_contact)
qed

text \<open>
  Claim C3, as the code has it. For every candidate record, validation produces an error
  for the email field if and only if the email value does not have the shape: no white
  space, exactly one "@", a non-empty part before it, and after it a part with a "." that
  is neither its first nor its last character. The error is "Email is required" (Required)
  when the value is empty or made of white space only, and "Invalid email format"
  (InvalidFormat) otherwise.
\<close>

theorem validateForm_email:
  "map_of (errors (fst (validateForm st))) EEmail_id =
     (if blank (email_id (formData st)) then Some ''Email is required''
      else if email_shape (email_id (formData st)) then None
      else Some ''Invalid email format'') \<and>
   (map_of (errors (fst (validateForm st))) EEmail_id \<noteq> None) = (\<not> email_shape (email_id (formData st)))"
  using blank_not_email_shape [of "email_id (formData st)"]
  by (auto simp: errors_validateForm map_of_newErrors_email)

theorem validateForm_email_witness:
  "email_shape (email_id (formData okForm)) \<and>
   map_of (errors (fst (validateForm okForm))) EEmail_id = None \<and>
   map_of (errors (fst (validateForm (okForm\<lparr>formData := okData\<lparr>email_id := ''office.example''\<rparr>\<rparr>))))
     EEmail_id = Some ''Invalid email format'' \<and>
   map_of (errors (fst (validateForm (okForm\<lparr>formData := okData\<lparr>email_id := []\<rparr>\<rparr>)))) EEmail_id =
     Some ''Email is required''"
proof -
  have t: "email_shape (email_id (formData okForm))" by code_simp
  have a: "(if blank (email_id (formData okForm)) then Some ''Email is required''
            else if email_shape (email_id (formData okForm)) then None
            else Some ''Invalid email format'') = None"
    by code_simp
  have b: "\<not> blank ''office.example''" "\<not> email_shape ''office.example''" by code_simp+
  have c: "blank []" by (rule blank_Nil)
  have 1: "map_of (errors (fst (validateForm okForm))) EEmail_id = None"
    using validateForm_email [of okForm] a by simp
  have 2: "map_of (errors (fst (validateForm (okForm\<lparr>formData := okData\<lparr>email_id := ''office.example''\<rparr>\<rparr>))))
             EEmail_id = Some ''Invalid email format''"
    using validateForm_email [of "okForm\<lparr>formData := okData\<lparr>email_id := ''office.example''\<rparr>\<rparr>"] b
    by simp
  have 3: "map_of (errors (fst (validateForm (okForm\<lparr>formData := okData\<lparr>email_id := []\<rparr>\<rparr>))))
             EEmail_id = Some ''Email is required''"
    using validateForm_email [of "okForm\<lparr>formData := okData\<lparr>email_id := []\<rparr>\<rparr>"] c
    by simp
  show ?thesis using t 1 2 3 by simp
qed

text \<open>
  Claim C3 as it is worded: the value \<open>a@b.\<close> has a single "@" with non-empty parts on both
  sides and a "." after the "@", and so has \<open>a @b.c\<close>, yet both get the InvalidFormat error
  (the "." ends the value; there is a space); and a value of one space is not empty, yet
  its error is the Required one.
\<close>

theorem email_shape_counterexample:
  "spec_email_shape ''a@b.'' \<and>
   map_of (errors (fst (validateForm (okForm\<lparr>formData := okData\<lparr>email_id := ''a@b.''\<rparr>\<rparr>)))) EEmail_id =
     Some ''Invalid email format'' \<and>
   spec_email_shape ''a @b.c'' \<and>
   map_of (errors (fst (validateForm (okForm\<lparr>formData := okData\<lparr>email_id := ''a @b.c''\<rparr>\<rparr>)))) EEmail_id =
     Some ''Invalid email format'' \<and>
   '' '' \<noteq> [] \<and>
   map_of (errors (fst (validateForm (okForm\<lparr>formData := okData\<lparr>email_id := '' ''\<rparr>\<rparr>)))) EEmail_id =
     Some ''Email is required''"
proof -
  have s: "spec_email_shape ''a@b.''" "spec_email_shape ''a @b.c''" by code_simp+
  have n: "\<not> blank ''a@b.''" "\<not> email_shape ''a@b.''"
          "\<not> blank ''a @b.c''" "\<not> email_shape ''a @b.c''" by code_simp+
  have b: "blank '' ''" by code_simp
  show ?thesis
    using s n b by (simp add: errors_validateForm map_of_newErrors_email)
qed

text \<open>
  Claim C8. For every image payload, the upload gate rejects it with the TooLarge error
  ("Image size must be less than 5MB") if and only if its size exceeds 5,000,000 bytes,
  and on rejection the form's data, the image field with it, is left unchanged; a payload
  of 6,000,000 bytes is rejected and the image field stays unset.
\<close>

theorem handleImageChange_gate:
  "(map_of (errors (handleImageChange (Some (f # fs)) st)) EImage =
      Some ''Image size must be less than 5MB'') = (size_fld f > 5000000) \<and>
   (size_fld f > 5000000 \<longrightarrow>
      formData (handleImageChange (Some (f # fs)) st) = formData st \<and>
      imagePreview (handleImageChange (Some (f # fs)) st) = imagePreview st)"
  by (simp add: handleImageChange_def Let_def update_conv')

theorem handleImageChange_gate_witness:
  "size_fld bigFile > 5000000 \<and>
   map_of (errors (handleImageChange (Some [bigFile]) initialForm)) EImage =
     Some ''Image size must be less than 5MB'' \<and>
   image_fld (formData (handleImageChange (Some [bigFile]) initialForm)) = None \<and>
   imagePreview (handleImageChange (Some [bigFile]) initialForm) = None"
proof -
  have h: "size_fld bigFile > 5000000" by (simp add: bigFile_def)
  have i: "image_fld (formData initialForm) = None" "imagePreview initialForm = None"
    by (simp_all add: initialForm_def)
  show ?thesis
    using handleImageChange_gate [of bigFile "[]" initialForm] h i by simp
qed

section \<open>The gateway's append\<close>

text \<open>
  Claim C7. For every candidate record and every store that holds an array of records,
  \<^const>\<open>addSchool\<close> builds a record whose id is the current record count plus one, whose
  creation timestamp is the ISO text of the clock and is not empty, and whose other fields
  are the candidate's; it stores the array with that record appended and returns the
  record, unless the browser refuses the write. With 3 records stored the id is 4.
\<close>

theorem addSchool_assigns:
  assumes "getStored st = Inr schools"
  shows "\<exists>s'. addSchool quota_ok now d st =
           (if quota_ok (schools @ [s']) then Inr (s', Records (schools @ [s']))
            else Inl QuotaExceeded) \<and>
         id_fld s' = length schools + 1 \<and> createdAt s' = toISOString now \<and> createdAt s' \<noteq> [] \<and>
         name s' = name d \<and> address s' = address d \<and> city s' = city d \<and> state s' = state d \<and>
         contact s' = contact d \<and> email_id s' = email_id d \<and> image_fld s' = image_fld d"
proof -
  let ?s = "\<lparr>name = name d, address = address d, city = city d, state = state d,
             contact = contact d, email_id = email_id d, image_fld = image_fld d,
             id_fld = length schools + 1, createdAt = toISOString now\<rparr>"
  show ?thesis
    using assms by (intro exI [of _ ?s]) (simp add: addSchool_def Let_def toISOString_nonempty)
qed

theorem addSchool_assigns_witness:
  "getStored (Records [oak_hill, oakridge, pine_grove]) = Inr [oak_hill, oakridge, pine_grove] \<and>
   (case addSchool (\<lambda>_. True) 1700000000000 okData (Records [oak_hill, oakridge, pine_grove]) of
      Inl e \<Rightarrow> False
    | Inr (s', st') \<Rightarrow>
        id_fld s' = 4 \<and> createdAt s' = ''2023-11-14T22:13:20.000Z'' \<and> createdAt s' \<noteq> [] \<and>
        name s' = ''Oak Hill'' \<and> st' = Records [oak_hill, oakridge, pine_grove, s'])"
proof -
  have h: "getStored (Records [oak_hill, oakridge, pine_grove]) = Inr [oak_hill, oakridge, pine_grove]"
    by (simp add: getStored_def)
  from addSchool_assigns [OF h, of "\<lambda>_. True" 1700000000000 okData]
  obtain s' where
    "addSchool (\<lambda>_. True) 1700000000000 okData (Records [oak_hill, oakridge, pine_grove]) =
       Inr (s', Records ([oak_hill, oakridge, pine_grove] @ [s']))"
    "id_fld s' = length [oak_hill, oakridge, pine_grove] + 1"
    "createdAt s' = toISOString 1700000000000" "createdAt s' \<noteq> []"
    "name s' = name okData"
    by auto
  then show ?thesis using h by (simp add: okData_def toISOString_example)
qed

section \<open>Submission\<close>

text \<open>
  Claim C9. For every form state whose validation passes, if the gateway's append fails
  during submission, the failure is caught: the errors become exactly the one entry under
  the key \<open>submit\<close> ("Failed to add school. Please try again."), with no entry for any
  field, the form's data is unchanged, the storage is unchanged, the loading flag is off
  and the success callback is not called.
\<close>

theorem handleSubmit_gateway_failure:
  assumes "snd (validateForm st)" and "addSchool quota_ok now (formData st) store = Inl e"
  shows "handleSubmit quota_ok now st store =
           (st\<lparr>errors := [(ESubmit, ''Failed to add school. Please try again.'')],
               loading := False\<rparr>, store, False)"
  using assms by (simp add: handleSubmit_def validateForm_def Let_def split: prod.splits)

theorem handleSubmit_gateway_failure_witness:
  "snd (validateForm okForm) \<and>
   addSchool (\<lambda>_. False) 1700000000000 (formData okForm) Absent = Inl QuotaExceeded \<and>
   handleSubmit (\<lambda>_. False) 1700000000000 okForm Absent =
     (okForm\<lparr>errors := [(ESubmit, ''Failed to add school. Please try again.'')],
             loading := False\<rparr>, Absent, False) \<and>
   formData (fst (handleSubmit (\<lambda>_. False) 1700000000000 okForm Absent)) = okData"
proof -
  have n: "newErrors okData = []"
    unfolding newErrors_def Let_def trim_empty_iff rx_test_contact rx_test_email
    by code_simp
  have v: "snd (validateForm okForm)"
    by (simp add: validateForm_def Let_def okForm_def n)
  have f: "addSchool (\<lambda>_. False) 1700000000000 (formData okForm) Absent = Inl QuotaExceeded"
    by (simp add: addSchool_def getStored_def Let_def)
  have d: "formData okForm = okData" by (simp add: okForm_def)
  show ?thesis
    using handleSubmit_gateway_failure [OF v f] v f d by simp
qed

end
